theory Spec2Isabelle
  imports Complex_Main "HOL-Library.AList"
begin

section \<open>JavaScript values as the views read them\<close>

text \<open>
  The frontend receives its data as parsed JSON. A property read of an object yields the
  stored value, or \<open>undefined\<close> when the object has no such property; a value used as a
  condition is coerced by ToBoolean; \<open>a && b\<close> yields \<open>a\<close> when \<open>a\<close> is falsy and \<open>b\<close>
  otherwise; \<open>!a\<close> is the negated coercion.
\<close>

datatype jsval =
    JSUndefined
  | JSBool bool
  | JSNumber real
  | JSString string
  | JSArray "jsval list"
  | JSObject "(string \<times> jsval) list"

fun toBoolean :: "jsval \<Rightarrow> bool" where
  "toBoolean JSUndefined = False"
| "toBoolean (JSBool b) = b"
| "toBoolean (JSNumber n) = (n \<noteq> 0)"
| "toBoolean (JSString s) = (s \<noteq> [])"
| "toBoolean (JSArray xs) = True"
| "toBoolean (JSObject ps) = True"

definition js_and :: "jsval \<Rightarrow> jsval \<Rightarrow> jsval" where
  "js_and a b = (if toBoolean a then b else a)"

definition js_not :: "jsval \<Rightarrow> jsval" where
  "js_not a = JSBool (\<not> toBoolean a)"

definition get_property :: "(string \<times> jsval) list \<Rightarrow> string \<Rightarrow> jsval" where
  "get_property obj name = (case map_of obj name of None \<Rightarrow> JSUndefined | Some v \<Rightarrow> v)"

text \<open>An optional property is present in the object only when it has a value.\<close>

definition optional_property :: "string \<Rightarrow> string option \<Rightarrow> (string \<times> jsval) list" where
  "optional_property name v = (case v of None \<Rightarrow> [] | Some s \<Rightarrow> [(name, JSString s)])"

text \<open>A \<open>string | null\<close> used as a condition: \<open>null\<close> and the empty string are falsy.\<close>

fun truthy_string :: "string option \<Rightarrow> bool" where
  "truthy_string None = False"
| "truthy_string (Some s) = (s \<noteq> [])"


section \<open>Types of \<open>frontend/src/types/index.ts\<close>\<close>

datatype BatchStatus =
  batch_pending | batch_processing | batch_completed | batch_failed | batch_paused

text \<open>
  The ten case statuses. The constructors are capitalised because \<open>BatchStatistics\<close>
  has fields of the same names.
\<close>

datatype CaseStatus =
    Pending
  | Searching
  | Ambiguous
  | Awaiting_selection
  | Civil_procedure_blocked
  | Citation_mismatch
  | Analysis_only
  | Downloading
  | Completed
  | Error

datatype CitationMatchType = exact | similar_volume | year_match_only | none

record BatchStatistics =
  batch_id :: string
  status :: BatchStatus
  total_cases :: nat
  completed :: nat
  pending :: nat
  errors :: nat
  ambiguous :: nat
  civil_procedure_blocked :: nat
  awaiting_selection :: nat
  progress_percentage :: real

record AvailableDocuments =
  pdf :: bool
  transcript :: bool
  analysis :: bool

text \<open>
  A search result as the page holds it. \<open>item_id\<close> is the field \<open>id\<close> of the interface.
  The value is the API's response as it came (\<open>response.data\<close>, not validated), so
  beside the fields the interface declares it may carry further properties:
  \<open>undeclared_properties\<close> holds them, by name.
\<close>

record SearchResultItem =
  item_id :: string
  westlaw_citation :: string
  where_reported :: "string list"
  principal_subject :: "string option"
  is_civil_procedure :: bool
  parties_display :: string
  decision_date :: "string option"
  year :: int
  available_documents :: AvailableDocuments
  citation_match_type :: CitationMatchType
  similarity_score :: real
  westlaw_url :: "string option"
  citation_match_badge :: "string option"
  undeclared_properties :: "(string \<times> jsval) list"

text \<open>\<open>entry_notes\<close> is the field \<open>notes\<close>; both optional fields may be absent.\<close>

record ManualCaseEntry =
  party_name :: string
  citation :: "string option"
  entry_notes :: "string option"

fun CitationMatchType_string :: "CitationMatchType \<Rightarrow> string" where
  "CitationMatchType_string exact = ''exact''"
| "CitationMatchType_string similar_volume = ''similar_volume''"
| "CitationMatchType_string year_match_only = ''year_match_only''"
| "CitationMatchType_string none = ''none''"

text \<open>
  The object a \<open>SearchResultItem\<close> is at run time: the properties the interface
  declares, followed by the undeclared ones the response carried. A read finds the first
  entry of a name, so a declared field is read as the record holds it.
\<close>

definition SearchResultItem_object :: "SearchResultItem \<Rightarrow> (string \<times> jsval) list" where
  "SearchResultItem_object r =
     [(''id'', JSString (item_id r)),
      (''westlaw_citation'', JSString (westlaw_citation r)),
      (''where_reported'', JSArray (map JSString (where_reported r)))]
     @ optional_property ''principal_subject'' (principal_subject r)
     @ [(''is_civil_procedure'', JSBool (is_civil_procedure r)),
        (''parties_display'', JSString (parties_display r))]
     @ optional_property ''decision_date'' (decision_date r)
     @ [(''year'', JSNumber (of_int (year r))),
        (''available_documents'',
           JSObject [(''pdf'', JSBool (pdf (available_documents r))),
                     (''transcript'', JSBool (transcript (available_documents r))),
                     (''analysis'', JSBool (analysis (available_documents r)))]),
        (''citation_match_type'',
           JSString (CitationMatchType_string (citation_match_type r))),
        (''similarity_score'', JSNumber (similarity_score r))]
     @ optional_property ''westlaw_url'' (westlaw_url r)
     @ optional_property ''citation_match_badge'' (citation_match_badge r)
     @ undeclared_properties r"


section \<open>\<open>selectCaseResult\<close> of \<open>frontend/src/utils/api.ts\<close>\<close>

record SelectRequestBody =
  result_id :: string
  override_civil_procedure :: bool

record PostRequest =
  url :: string
  body :: SelectRequestBody

definition selectCaseResult :: "string \<Rightarrow> string \<Rightarrow> PostRequest" where
  "selectCaseResult caseId resultId =
     \<lparr> url = ''/cases/'' @ caseId @ ''/select'',
       body = \<lparr> result_id = resultId, override_civil_procedure = False \<rparr> \<rparr>"


section \<open>The disambiguation page, \<open>frontend/src/pages/Disambiguation.tsx\<close>\<close>

record BadgeConfig =
  label :: string
  color :: string

text \<open>The object literal \<open>matchTypeConfig\<close>, entry by entry.\<close>

definition matchTypeConfig :: "(CitationMatchType \<times> BadgeConfig) list" where
  "matchTypeConfig =
     [(exact, \<lparr> label = ''Exact Match'',
                color = ''bg-green-100 text-green-800 border-green-200'' \<rparr>),
      (similar_volume, \<lparr> label = ''Volume Tolerance'',
                color = ''bg-yellow-100 text-yellow-800 border-yellow-200'' \<rparr>),
      (year_match_only, \<lparr> label = ''Year Match Only'',
                color = ''bg-orange-100 text-orange-800 border-orange-200'' \<rparr>),
      (none, \<lparr> label = ''No Match'',
                color = ''bg-red-100 text-red-800 border-red-200'' \<rparr>)]"

text \<open>
  \<open>canDownload\<close> of \<open>ResultCard\<close>:
  \<open>result.has_downloadable_document && !result.is_civil_procedure\<close>.
\<close>

definition canDownload :: "(string \<times> jsval) list \<Rightarrow> jsval" where
  "canDownload result =
     js_and (get_property result ''has_downloadable_document'')
            (js_not (get_property result ''is_civil_procedure''))"

record ResultCardProps =
  result :: SearchResultItem
  userCitation :: "string option"
  isSelected :: bool
  disabled :: bool

text \<open>
  What a card renders, as far as it depends on the data: the match badge, the
  civil-procedure badge, the "Cannot auto-download" indicator and the selection mark.
  Reading \<open>matchConfig.color\<close> of a missing configuration throws, which is \<open>None\<close>.
\<close>

record ResultCardView =
  match_badge :: BadgeConfig
  civil_procedure_badge :: bool
  cannot_auto_download :: bool
  selected_mark :: bool

definition ResultCard :: "ResultCardProps \<Rightarrow> ResultCardView option" where
  "ResultCard props =
     (case map_of matchTypeConfig (citation_match_type (result props)) of
        None \<Rightarrow> None
      | Some matchConfig \<Rightarrow>
          Some \<lparr> match_badge = matchConfig,
                 civil_procedure_badge = is_civil_procedure (result props),
                 cannot_auto_download =
                   (\<not> toBoolean (canDownload (SearchResultItem_object (result props)))),
                 selected_mark = isSelected props \<rparr>)"

text \<open>
  The page's state: the case id of the route, the results of \<open>resultsQuery\<close>, the
  \<open>selectedResult\<close> state and \<open>selectMutation.isPending\<close>. The results are read from
  \<open>resultsQuery.data\<close> on every render, so they are whatever the query holds at the time.
\<close>

record DisambiguationState =
  caseId :: string
  results :: "SearchResultItem list"
  selectedResult :: "string option"
  isPending :: bool



text \<open>
  \<open>handleSelect\<close>: the new state and the request \<open>selectMutation.mutate\<close> sends, if any.
\<close>

definition handleSelect :: "DisambiguationState \<Rightarrow> DisambiguationState \<times> PostRequest option" where
  "handleSelect s =
     (if truthy_string (selectedResult s)
      then (case selectedResult s of
              None \<Rightarrow> (s, None)
            | Some resultId \<Rightarrow>
                (s\<lparr> isPending := True \<rparr>, Some (selectCaseResult (caseId s) resultId)))
      else (s, None))"









subsection \<open>Example data\<close>

definition civil_exact_result :: SearchResultItem where
  "civil_exact_result =
     \<lparr> item_id = ''r1'', westlaw_citation = ''[2020] HKCFI 123'',
       where_reported = [''[2020] 1 HKLRD 100''], principal_subject = Some ''Civil Procedure'',
       is_civil_procedure = True, parties_display = ''Smith v Jones'',
       decision_date = None, year = 2020,
       available_documents = \<lparr> pdf = True, transcript = False, analysis = True \<rparr>,
       citation_match_type = exact, similarity_score = 1,
       westlaw_url = None, citation_match_badge = None, undeclared_properties = [] \<rparr>"

definition plain_exact_result :: SearchResultItem where
  "plain_exact_result =
     \<lparr> item_id = ''r2'', westlaw_citation = ''[2020] HKCFI 123'',
       where_reported = [''[2020] 1 HKLRD 100''], principal_subject = Some ''Contract Law'',
       is_civil_procedure = False, parties_display = ''Smith v Jones'',
       decision_date = None, year = 2020,
       available_documents = \<lparr> pdf = True, transcript = False, analysis = True \<rparr>,
       citation_match_type = exact, similarity_score = 1,
       westlaw_url = None, citation_match_badge = None, undeclared_properties = [] \<rparr>"

text \<open>The same result as a response that also carries \<open>has_downloadable_document: true\<close>.\<close>

definition downloadable_exact_result :: SearchResultItem where
  "downloadable_exact_result =
     plain_exact_result
       \<lparr> undeclared_properties := [(''has_downloadable_document'', JSBool True)] \<rparr>"

definition example_state :: DisambiguationState where
  "example_state =
     \<lparr> caseId = ''case-1'', results = [civil_exact_result, plain_exact_result],
       selectedResult = Some ''r2'', isPending = False \<rparr>"


section \<open>Strings\<close>

text \<open>
  Strings are lists of 8-bit characters, so the text is taken to be ASCII. \<open>trim\<close> is
  \<open>String.prototype.trim\<close>: it strips white space and line terminators from both ends;
  within ASCII these are tab, line feed, vertical tab, form feed, carriage return and
  space.
\<close>

definition is_whitespace :: "char \<Rightarrow> bool" where
  "is_whitespace c = (c \<in> set [CHR 0x09, CHR 0x0A, CHR 0x0B, CHR 0x0C, CHR 0x0D, CHR 0x20])"

definition trim :: "string \<Rightarrow> string" where
  "trim s = rev (dropWhile is_whitespace (rev (dropWhile is_whitespace s)))"

text \<open>A number inside a template literal: its decimal digits.\<close>

fun string_of_nat :: "nat \<Rightarrow> string" where
  "string_of_nat n =
     (if n < 10 then [char_of (48 + n)]
      else string_of_nat (n div 10) @ [char_of (48 + n mod 10)])"

declare string_of_nat.simps [simp del]


section \<open>Manual entry, \<open>frontend/src/pages/ManualEntry.tsx\<close>\<close>

text \<open>
  The page's state (\<open>cases\<close>, \<open>autoDownload\<close>, \<open>validationErrors\<close>) and the argument of
  \<open>submitMutation.mutate\<close>, whose field \<open>cases\<close> is \<open>batch_cases\<close> here.
\<close>

record ManualEntryState =
  cases :: "ManualCaseEntry list"
  autoDownload :: bool
  validationErrors :: "string list"

record ManualBatchRequest =
  batch_cases :: "ManualCaseEntry list"
  auto_download_exact_matches :: bool

text \<open>
  \<open>validateForm\<close>: the errors handed to \<open>setValidationErrors\<close>, and the returned flag.
\<close>

definition validateForm :: "ManualCaseEntry list \<Rightarrow> string list \<times> bool" where
  "validateForm cs =
     (let errors0 = (if length cs = 0 then [''Please add at least one case''] else []);
          errors1 = errors0 @ concat (map (\<lambda>(index, caseEntry).
                      if trim (party_name caseEntry) = []
                      then [''Case #'' @ string_of_nat (index + 1) @ '': Party name is required'']
                      else []) (enumerate 0 cs))
      in (errors1, length errors1 = 0))"

text \<open>\<open>c.citation?.trim() || undefined\<close>, and the same for the notes.\<close>

definition clean_optional :: "string option \<Rightarrow> string option" where
  "clean_optional v =
     (case v of None \<Rightarrow> None | Some s \<Rightarrow> (if trim s = [] then None else Some (trim s)))"

definition clean_case :: "ManualCaseEntry \<Rightarrow> ManualCaseEntry" where
  "clean_case c =
     \<lparr> party_name = trim (party_name c),
       citation = clean_optional (citation c),
       entry_notes = clean_optional (entry_notes c) \<rparr>"

text \<open>\<open>handleSubmit\<close>: the new state, and the request handed to the mutation, if any.\<close>

definition handleSubmit :: "ManualEntryState \<Rightarrow> ManualEntryState \<times> ManualBatchRequest option" where
  "handleSubmit st =
     (case validateForm (cases st) of (errs, ok) \<Rightarrow>
        if \<not> ok then (st\<lparr> validationErrors := errs \<rparr>, None)
        else (st\<lparr> validationErrors := errs \<rparr>,
              Some \<lparr> batch_cases =
                       map clean_case (filter (\<lambda>c. trim (party_name c) \<noteq> []) (cases st)),
                     auto_download_exact_matches = autoDownload st \<rparr>))"

definition example_entries :: "ManualCaseEntry list" where
  "example_entries =
     [\<lparr> party_name = ''  Smith v Jones '', citation = Some '' [2020] HKCFI 123'',
        entry_notes = Some ''   '' \<rparr>,
      \<lparr> party_name = ''A v B'', citation = None, entry_notes = Some '''' \<rparr>]"

definition example_request :: ManualBatchRequest where
  "example_request =
     \<lparr> batch_cases =
         [\<lparr> party_name = ''Smith v Jones'', citation = Some ''[2020] HKCFI 123'',
            entry_notes = None \<rparr>,
          \<lparr> party_name = ''A v B'', citation = None, entry_notes = None \<rparr>],
       auto_download_exact_matches = True \<rparr>"


section \<open>The component \<open>CaseEntryForm\<close>, in \<open>frontend/src/utils/api.ts\<close>\<close>

text \<open>The keys of \<open>ManualCaseEntry\<close>, as \<open>updateCase\<close> receives them.\<close>

datatype entry_field = field_party_name | field_citation | field_notes

definition blank_entry :: ManualCaseEntry where
  "blank_entry = \<lparr> party_name = [], citation = Some [], entry_notes = Some [] \<rparr>"

text \<open>\<open>addCase\<close>: the list handed to \<open>onChange\<close>, or \<open>None\<close> when it returns early.\<close>

definition addCase :: "nat \<Rightarrow> ManualCaseEntry list \<Rightarrow> ManualCaseEntry list option" where
  "addCase maxCases cs =
     (if length cs \<ge> maxCases then None else Some (cs @ [blank_entry]))"

text \<open>The parent's \<open>onChange\<close> stores the list it is handed; with no call the list stays.\<close>

definition after_onChange ::
  "ManualCaseEntry list \<Rightarrow> ManualCaseEntry list option \<Rightarrow> ManualCaseEntry list" where
  "after_onChange cs change = (case change of None \<Rightarrow> cs | Some newCases \<Rightarrow> newCases)"

text \<open>
  The form's view of the state: the cases (held by the parent) and its own \<open>errors\<close>
  object, kept as the list of its entries; an object has each key once.
\<close>

record CaseEntryFormState =
  form_cases :: "ManualCaseEntry list"
  form_errors :: "(nat \<times> string) list"

definition removeCase :: "nat \<Rightarrow> CaseEntryFormState \<Rightarrow> CaseEntryFormState" where
  "removeCase index st =
     \<lparr> form_cases = map snd (filter (\<lambda>(i, c). i \<noteq> index) (enumerate 0 (form_cases st))),
       form_errors =
         fold (\<lambda>(keyNum, v) newErrors.
                 if keyNum < index then AList.update keyNum v newErrors
                 else if keyNum > index then AList.update (keyNum - 1) v newErrors
                 else newErrors)
              (form_errors st) [] \<rparr>"

fun set_field :: "entry_field \<Rightarrow> string \<Rightarrow> ManualCaseEntry \<Rightarrow> ManualCaseEntry" where
  "set_field field_party_name v c = c\<lparr> party_name := v \<rparr>"
| "set_field field_citation v c = c\<lparr> citation := Some v \<rparr>"
| "set_field field_notes v c = c\<lparr> entry_notes := Some v \<rparr>"

definition updateCase ::
  "nat \<Rightarrow> entry_field \<Rightarrow> string \<Rightarrow> CaseEntryFormState \<Rightarrow> CaseEntryFormState" where
  "updateCase index field v st =
     \<lparr> form_cases = map (\<lambda>(i, c). if i = index then set_field field v c else c)
                        (enumerate 0 (form_cases st)),
       form_errors =
         (if truthy_string (map_of (form_errors st) index)
          then AList.delete index (form_errors st) else form_errors st) \<rparr>"

definition validateAll :: "CaseEntryFormState \<Rightarrow> CaseEntryFormState \<times> bool" where
  "validateAll st =
     (let newErrors = map (\<lambda>(index, caseEntry). (index, ''Party name is required''))
                        (filter (\<lambda>(index, caseEntry). trim (party_name caseEntry) = [])
                           (enumerate 0 (form_cases st)))
      in (st\<lparr> form_errors := newErrors \<rparr>, newErrors = []))"

text \<open>
  The form's events. The remove button of an entry is rendered only while there is more
  than one entry, and inputs exist only for the entries there are.
\<close>

datatype form_event =
  AddCaseClicked | RemoveCaseClicked nat | FieldEdited nat entry_field string

fun form_step :: "nat \<Rightarrow> CaseEntryFormState \<Rightarrow> form_event \<Rightarrow> CaseEntryFormState" where
  "form_step maxCases st AddCaseClicked =
     st\<lparr> form_cases := after_onChange (form_cases st) (addCase maxCases (form_cases st)) \<rparr>"
| "form_step maxCases st (RemoveCaseClicked i) =
     (if 1 < length (form_cases st) \<and> i < length (form_cases st) then removeCase i st else st)"
| "form_step maxCases st (FieldEdited i field v) =
     (if i < length (form_cases st) then updateCase i field v st else st)"

text \<open>The form as \<open>ManualEntry\<close> first renders it: one blank entry, no errors.\<close>

definition manual_entry_form :: CaseEntryFormState where
  "manual_entry_form = \<lparr> form_cases = [blank_entry], form_errors = [] \<rparr>"

text \<open>The key an entry of the new error object had in the old one.\<close>

definition shift_key :: "nat \<Rightarrow> nat \<Rightarrow> nat" where
  "shift_key index k = (if k < index then k else Suc k)"

definition example_form :: CaseEntryFormState where
  "example_form =
     \<lparr> form_cases =
         [\<lparr> party_name = ''A v B'', citation = None, entry_notes = None \<rparr>,
          \<lparr> party_name = '''', citation = Some ''[2020] UKSC 15'', entry_notes = None \<rparr>,
          \<lparr> party_name = ''C v D'', citation = None, entry_notes = None \<rparr>],
       form_errors = [(0, ''first''), (1, ''second''), (2, ''third'')] \<rparr>"


section \<open>The event stream: \<open>frontend/src/hooks/useWebSocket.ts\<close> and the queries of \<open>Dashboard\<close>\<close>

text \<open>
  The hook's state, for messages of any type: \<open>JSON.parse\<close> returns whatever the frame
  encodes. What the handler does besides updating the state is a list of effects: a call
  of the caller's \<open>onMessage\<close>, or a line on the error console.
\<close>

record 'm WebSocketState =
  isConnected :: bool
  lastMessage :: "'m option"

datatype 'm ws_effect = OnMessageCalled 'm | ConsoleError

text \<open>
  \<open>ws.onmessage\<close>. \<open>JSON_parse\<close> is the parser, \<open>None\<close> where it throws; \<open>onMessage\<close> is
  the optional callback, which returns \<open>False\<close> where it throws; either exception is
  caught and logged.
\<close>

definition ws_onmessage ::
  "(string \<Rightarrow> 'm option) \<Rightarrow> ('m \<Rightarrow> bool) option \<Rightarrow> string
     \<Rightarrow> 'm WebSocketState \<Rightarrow> 'm WebSocketState \<times> 'm ws_effect list" where
  "ws_onmessage JSON_parse onMessage data st =
     (case JSON_parse data of
        None \<Rightarrow> (st, [ConsoleError])
      | Some message \<Rightarrow>
          (st\<lparr> lastMessage := Some message \<rparr>,
           (case onMessage of
              None \<Rightarrow> []
            | Some callback \<Rightarrow>
                if callback message then [OnMessageCalled message]
                else [OnMessageCalled message, ConsoleError])))"

text \<open>The options of the dashboard's three queries; the interval is in milliseconds.\<close>

record QueryOptions =
  queryKey :: "string \<times> string option"
  enabled :: bool
  refetchInterval :: "nat option"

definition batchQuery :: "string option \<Rightarrow> QueryOptions" where
  "batchQuery selectedBatchId =
     \<lparr> queryKey = (''batch'', selectedBatchId),
       enabled = truthy_string selectedBatchId,
       refetchInterval = Some 5000 \<rparr>"

definition statsQuery :: "string option \<Rightarrow> QueryOptions" where
  "statsQuery selectedBatchId =
     \<lparr> queryKey = (''batch-stats'', selectedBatchId),
       enabled = truthy_string selectedBatchId,
       refetchInterval = Some 5000 \<rparr>"

definition casesQuery :: "string option \<Rightarrow> QueryOptions" where
  "casesQuery selectedBatchId =
     \<lparr> queryKey = (''batch-cases'', selectedBatchId),
       enabled = truthy_string selectedBatchId,
       refetchInterval = Some 5000 \<rparr>"

definition dashboard_queries :: "string option \<Rightarrow> QueryOptions list" where
  "dashboard_queries selectedBatchId =
     [batchQuery selectedBatchId, statsQuery selectedBatchId, casesQuery selectedBatchId]"

text \<open>A stand-in parser for examples: it accepts the JSON text \<open>42\<close> only.\<close>

definition example_parse :: "string \<Rightarrow> nat option" where
  "example_parse data = (if data = ''42'' then Some 42 else None)"


section \<open>Properties of the disambiguation page\<close>

lemma map_of_matchTypeConfig:
  "map_of matchTypeConfig mt \<noteq> None"
  by (cases mt) (simp_all add: matchTypeConfig_def)

text \<open>
  Claim C6. The match types are exactly \<open>exact\<close>, \<open>similar_volume\<close>, \<open>year_match_only\<close>
  and \<open>none\<close>; \<open>matchTypeConfig\<close> has exactly one entry for each of them, so the lookup
  of a card's badge always finds a configuration and rendering a card never fails.
\<close>

theorem matchTypeConfig_total:
  "(UNIV :: CitationMatchType set) = {exact, similar_volume, year_match_only, none}
   \<and> (\<forall>mt. length (filter (\<lambda>e. fst e = mt) matchTypeConfig) = 1)
   \<and> (\<forall>mt. \<exists>cfg. map_of matchTypeConfig mt = Some cfg)
   \<and> (\<forall>props. \<exists>view. ResultCard props = Some view
         \<and> map_of matchTypeConfig (citation_match_type (result props)) = Some (match_badge view))"
proof (intro conjI allI)
  show "(UNIV :: CitationMatchType set) = {exact, similar_volume, year_match_only, none}"
  proof
    show "(UNIV :: CitationMatchType set) \<subseteq> {exact, similar_volume, year_match_only, none}"
    proof
      fix mt :: CitationMatchType
      show "mt \<in> {exact, similar_volume, year_match_only, none}" by (cases mt) simp_all
    qed
  qed simp
next
  fix mt :: CitationMatchType
  show "length (filter (\<lambda>e. fst e = mt) matchTypeConfig) = 1"
    by (cases mt) (simp_all add: matchTypeConfig_def)
next
  fix mt :: CitationMatchType
  show "\<exists>cfg. map_of matchTypeConfig mt = Some cfg"
    using map_of_matchTypeConfig [of mt] by auto
next
  fix props :: ResultCardProps
  obtain cfg where "map_of matchTypeConfig (citation_match_type (result props)) = Some cfg"
    using map_of_matchTypeConfig [of "citation_match_type (result props)"] by auto
  then show "\<exists>view. ResultCard props = Some view
      \<and> map_of matchTypeConfig (citation_match_type (result props)) = Some (match_badge view)"
    by (simp add: ResultCard_def)
qed

lemma get_is_civil_procedure:
  "get_property (SearchResultItem_object r) ''is_civil_procedure'' = JSBool (is_civil_procedure r)"
  by (simp add: get_property_def SearchResultItem_object_def optional_property_def
        split: option.split)

lemma get_has_downloadable_document:
  "get_property (SearchResultItem_object r) ''has_downloadable_document''
     = get_property (undeclared_properties r) ''has_downloadable_document''"
  by (simp add: get_property_def SearchResultItem_object_def optional_property_def
        map_add_def split: option.split)

lemma canDownload_civil:
  "get_property obj ''is_civil_procedure'' = JSBool True \<Longrightarrow> \<not> toBoolean (canDownload obj)"
  by (simp add: canDownload_def js_and_def js_not_def)

lemma handleSelect_request:
  "snd (handleSelect s) = Some req \<Longrightarrow>
     selectedResult s = Some (result_id (body req))
     \<and> result_id (body req) \<noteq> []
     \<and> req = selectCaseResult (caseId s) (result_id (body req))
     \<and> \<not> override_civil_procedure (body req)"
  by (cases "selectedResult s")
     (auto simp: handleSelect_def selectCaseResult_def split: if_splits)

lemma handleSelect_example:
  "snd (handleSelect example_state) = Some (selectCaseResult ''case-1'' ''r2'')"
  by (simp add: handleSelect_def example_state_def)

text \<open>
  Claim C1, as amended. The request \<open>selectCaseResult\<close> posts to
  \<open>/cases/{caseId}/select\<close> carries the chosen \<open>result_id\<close> and an
  \<open>override_civil_procedure\<close> field, and the value of that field is always \<open>false\<close>: the
  function takes no override argument, so every request \<open>handleSelect\<close> submits is the
  one for the selected result with the override off.
\<close>

theorem select_request_never_overrides:
  "override_civil_procedure (body (selectCaseResult cid rid)) = False
   \<and> result_id (body (selectCaseResult cid rid)) = rid
   \<and> url (selectCaseResult cid rid) = ''/cases/'' @ cid @ ''/select''
   \<and> (snd (handleSelect s) = Some req \<longrightarrow>
         req = selectCaseResult (caseId s) (result_id (body req))
         \<and> selectedResult s = Some (result_id (body req))
         \<and> override_civil_procedure (body req) = False)"
proof (intro conjI impI)
  assume sent: "snd (handleSelect s) = Some req"
  from handleSelect_request [OF sent]
  show "req = selectCaseResult (caseId s) (result_id (body req))"
    and "selectedResult s = Some (result_id (body req))" by simp_all
  from handleSelect_request [OF sent]
  show "override_civil_procedure (body req) = False" by simp
qed (simp_all add: selectCaseResult_def)

theorem select_request_never_overrides_witness:
  "snd (handleSelect example_state) = Some (selectCaseResult ''case-1'' ''r2'')
   \<and> selectedResult example_state = Some ''r2''
   \<and> override_civil_procedure (body (selectCaseResult ''case-1'' ''r2'')) = False"
  using select_request_never_overrides
          [of "''case-1''" "''r2''" example_state "selectCaseResult ''case-1'' ''r2''"]
        handleSelect_example
  by (simp add: example_state_def)

text \<open>
  The claim as stated fails: with a result selected, the request the page submits has
  \<open>override_civil_procedure = false\<close>, and the page has no input that changes it.
\<close>

theorem select_request_override_counterexample:
  "snd (handleSelect \<lparr> caseId = ''case-1'', results = [], selectedResult = Some ''result-1'',
                       isPending = False \<rparr>)
     = Some \<lparr> url = ''/cases/case-1/select'',
              body = \<lparr> result_id = ''result-1'', override_civil_procedure = False \<rparr> \<rparr>"
  by (simp add: handleSelect_def selectCaseResult_def)

text \<open>
  Claim C2. A result flagged civil-procedure is never auto-downloadable: \<open>canDownload\<close>
  is falsy whatever the object's \<open>has_downloadable_document\<close> holds, and the card of a
  flagged \<open>SearchResultItem\<close> shows "Cannot auto-download" and the civil-procedure badge.
  The card reads neither the match type's quality nor the batch's
  \<open>auto_download_exact_matches\<close>, so this holds for every value of both.
\<close>

theorem civil_procedure_suppresses_download:
  "(get_property obj ''is_civil_procedure'' = JSBool True \<longrightarrow> \<not> toBoolean (canDownload obj))
   \<and> (is_civil_procedure (result props) \<longrightarrow>
        \<not> toBoolean (canDownload (SearchResultItem_object (result props)))
        \<and> (\<exists>view. ResultCard props = Some view \<and> cannot_auto_download view
              \<and> civil_procedure_badge view))"
proof (intro conjI impI)
  assume "get_property obj ''is_civil_procedure'' = JSBool True"
  then show "\<not> toBoolean (canDownload obj)" by (rule canDownload_civil)
next
  assume civ: "is_civil_procedure (result props)"
  then show blocked: "\<not> toBoolean (canDownload (SearchResultItem_object (result props)))"
    by (simp add: canDownload_civil get_is_civil_procedure)
  obtain cfg where "map_of matchTypeConfig (citation_match_type (result props)) = Some cfg"
    using map_of_matchTypeConfig [of "citation_match_type (result props)"] by auto
  with civ blocked
  show "\<exists>view. ResultCard props = Some view \<and> cannot_auto_download view
          \<and> civil_procedure_badge view"
    by (simp add: ResultCard_def)
qed

theorem civil_procedure_suppresses_download_witness:
  "get_property [(''has_downloadable_document'', JSBool True), (''is_civil_procedure'', JSBool True)]
      ''is_civil_procedure'' = JSBool True
   \<and> \<not> toBoolean (canDownload
        [(''has_downloadable_document'', JSBool True), (''is_civil_procedure'', JSBool True)])
   \<and> is_civil_procedure civil_exact_result
   \<and> citation_match_type civil_exact_result = exact
   \<and> (\<exists>view. ResultCard \<lparr> result = civil_exact_result, userCitation = None,
                  isSelected = False, disabled = False \<rparr> = Some view
         \<and> cannot_auto_download view)"
proof -
  let ?obj = "[(''has_downloadable_document'', JSBool True), (''is_civil_procedure'', JSBool True)]"
  let ?props = "\<lparr> result = civil_exact_result, userCitation = None,
                  isSelected = False, disabled = False \<rparr>"
  have flagged: "get_property ?obj ''is_civil_procedure'' = JSBool True"
    by (simp add: get_property_def)
  have civ: "is_civil_procedure (result ?props)"
    by (simp add: civil_exact_result_def)
  have mt: "citation_match_type civil_exact_result = exact"
    by (simp add: civil_exact_result_def)
  from civil_procedure_suppresses_download [of ?obj ?props] flagged civ
  have "\<not> toBoolean (canDownload ?obj)"
    and "\<exists>view. ResultCard ?props = Some view \<and> cannot_auto_download view
              \<and> civil_procedure_badge view"
    by blast+
  with flagged civ mt show ?thesis by auto
qed

text \<open>
  Claim C3, as amended. The card shows "Cannot auto-download" exactly when the result's
  \<open>has_downloadable_document\<close> is falsy or the result is civil-procedure. The interface
  declares no such field, so the read finds it only among the undeclared properties of
  the response: for every result whose response carries none of that name, also an exact
  match that is not civil-procedure and has a PDF, \<open>canDownload\<close> is \<open>undefined\<close> and the
  indicator is shown.
\<close>

theorem canDownload_reads_undeclared_field:
  "(\<exists>view. ResultCard props = Some view
      \<and> (cannot_auto_download view \<longleftrightarrow>
           \<not> (toBoolean (get_property (undeclared_properties (result props))
                            ''has_downloadable_document'')
               \<and> \<not> is_civil_procedure (result props))))
   \<and> (map_of (undeclared_properties (result props)) ''has_downloadable_document'' = None \<longrightarrow>
        get_property (SearchResultItem_object (result props)) ''has_downloadable_document''
          = JSUndefined
        \<and> canDownload (SearchResultItem_object (result props)) = JSUndefined
        \<and> (\<exists>view. ResultCard props = Some view \<and> cannot_auto_download view))"
proof -
  let ?obj = "SearchResultItem_object (result props)"
  let ?field = "get_property (undeclared_properties (result props)) ''has_downloadable_document''"
  obtain cfg where cfg: "map_of matchTypeConfig (citation_match_type (result props)) = Some cfg"
    using map_of_matchTypeConfig [of "citation_match_type (result props)"] by auto
  have computed: "canDownload ?obj
                 = (if toBoolean ?field then JSBool (\<not> is_civil_procedure (result props))
                    else ?field)"
    by (simp add: canDownload_def js_and_def js_not_def get_has_downloadable_document
          get_is_civil_procedure)
  then have shown: "(\<not> toBoolean (canDownload ?obj))
                 = (\<not> (toBoolean ?field \<and> \<not> is_civil_procedure (result props)))"
    by simp
  have absent: "?field = JSUndefined"
    if "map_of (undeclared_properties (result props)) ''has_downloadable_document'' = None"
    using that by (simp add: get_property_def)
  from cfg shown have "\<exists>view. ResultCard props = Some view
      \<and> (cannot_auto_download view \<longleftrightarrow>
           \<not> (toBoolean ?field \<and> \<not> is_civil_procedure (result props)))"
    by (simp add: ResultCard_def)
  moreover
  have "get_property ?obj ''has_downloadable_document'' = JSUndefined
        \<and> canDownload ?obj = JSUndefined
        \<and> (\<exists>view. ResultCard props = Some view \<and> cannot_auto_download view)"
    if none: "map_of (undeclared_properties (result props)) ''has_downloadable_document'' = None"
    using absent [OF none] computed cfg
    by (simp add: ResultCard_def get_has_downloadable_document)
  ultimately show ?thesis by blast
qed

theorem canDownload_reads_undeclared_field_witness:
  "map_of (undeclared_properties plain_exact_result) ''has_downloadable_document'' = None
   \<and> \<not> is_civil_procedure plain_exact_result
   \<and> citation_match_type plain_exact_result = exact
   \<and> pdf (available_documents plain_exact_result)
   \<and> canDownload (SearchResultItem_object plain_exact_result) = JSUndefined
   \<and> (\<exists>view. ResultCard \<lparr> result = plain_exact_result, userCitation = None,
                  isSelected = False, disabled = False \<rparr> = Some view
         \<and> cannot_auto_download view)"
proof -
  let ?props = "\<lparr> result = plain_exact_result, userCitation = None,
                  isSelected = False, disabled = False \<rparr>"
  have r: "result ?props = plain_exact_result" by simp
  have none: "map_of (undeclared_properties plain_exact_result) ''has_downloadable_document'' = None"
    by (simp add: plain_exact_result_def)
  from canDownload_reads_undeclared_field [of ?props] none
  have "canDownload (SearchResultItem_object plain_exact_result) = JSUndefined"
    and "\<exists>view. ResultCard ?props = Some view \<and> cannot_auto_download view"
    unfolding r by blast+
  moreover have "\<not> is_civil_procedure plain_exact_result"
    and "citation_match_type plain_exact_result = exact"
    and "pdf (available_documents plain_exact_result)"
    by (simp_all add: plain_exact_result_def)
  ultimately show ?thesis using none by blast
qed

text \<open>
  The claim as stated fails: for an exact match that is not civil-procedure, has a PDF
  and whose response carries \<open>has_downloadable_document: true\<close>, \<open>canDownload\<close> is \<open>true\<close>
  and the card does not show the indicator.
\<close>

theorem canDownload_always_falsy_counterexample:
  "citation_match_type downloadable_exact_result = exact
   \<and> \<not> is_civil_procedure downloadable_exact_result
   \<and> pdf (available_documents downloadable_exact_result)
   \<and> canDownload (SearchResultItem_object downloadable_exact_result) = JSBool True
   \<and> (\<exists>view. ResultCard \<lparr> result = downloadable_exact_result, userCitation = None,
                  isSelected = False, disabled = False \<rparr> = Some view
         \<and> \<not> cannot_auto_download view)"
  by (simp add: downloadable_exact_result_def plain_exact_result_def ResultCard_def
        matchTypeConfig_def canDownload_def js_and_def js_not_def get_property_def
        SearchResultItem_object_def optional_property_def)









section \<open>Properties of manual entry\<close>

lemma forall_enumerate:
  "(\<forall>p \<in> set (enumerate n cs). P (snd p)) = (\<forall>c \<in> set cs. P c)"
proof -
  have "set cs = snd ` set (enumerate n cs)"
    by (metis map_snd_enumerate set_map)
  then show ?thesis by auto
qed

lemma validateForm_ok:
  "snd (validateForm cs) = (cs \<noteq> [] \<and> (\<forall>c \<in> set cs. trim (party_name c) \<noteq> []))"
proof -
  let ?f = "\<lambda>(index, caseEntry).
              if trim (party_name caseEntry) = []
              then [''Case #'' @ string_of_nat (index + 1) @ '': Party name is required'']
              else []"
  have "(concat (map ?f (enumerate 0 cs)) = [])
          = (\<forall>p \<in> set (enumerate 0 cs). trim (party_name (snd p)) \<noteq> [])"
    by (auto simp: case_prod_beta split: if_splits)
  also have "\<dots> = (\<forall>c \<in> set cs. trim (party_name c) \<noteq> [])"
    by (rule forall_enumerate)
  finally have named: "(concat (map ?f (enumerate 0 cs)) = [])
          = (\<forall>c \<in> set cs. trim (party_name c) \<noteq> [])" .
  have "snd (validateForm cs) = (cs \<noteq> [] \<and> concat (map ?f (enumerate 0 cs)) = [])"
    by (simp add: validateForm_def Let_def)
  with named show ?thesis by simp
qed

lemma handleSubmit_sends:
  "snd (handleSubmit st) = Some req \<Longrightarrow>
     snd (validateForm (cases st))
     \<and> req = \<lparr> batch_cases = map clean_case (cases st),
               auto_download_exact_matches = autoDownload st \<rparr>"
proof -
  assume sent: "snd (handleSubmit st) = Some req"
  obtain errs ok where v: "validateForm (cases st) = (errs, ok)" by (cases "validateForm (cases st)")
  with sent have ok: ok by (auto simp: handleSubmit_def split: if_splits)
  with v have "snd (validateForm (cases st))" by simp
  then have all: "\<forall>c \<in> set (cases st). trim (party_name c) \<noteq> []"
    by (simp add: validateForm_ok)
  then have "filter (\<lambda>c. trim (party_name c) \<noteq> []) (cases st) = cases st"
    by (simp add: filter_id_conv)
  with sent v ok show ?thesis by (auto simp: handleSubmit_def)
qed

lemma handleSubmit_entry:
  assumes sent: "snd (handleSubmit st) = Some req" and i: "i < length (cases st)"
  shows "batch_cases req ! i = clean_case (cases st ! i)
         \<and> trim (party_name (cases st ! i)) \<noteq> []"
proof -
  from handleSubmit_sends [OF sent]
  have valid: "snd (validateForm (cases st))"
    and req: "batch_cases req = map clean_case (cases st)" by simp_all
  from i req have "batch_cases req ! i = clean_case (cases st ! i)" by simp
  moreover from valid i have "trim (party_name (cases st ! i)) \<noteq> []"
    by (simp add: validateForm_ok)
  ultimately show ?thesis by simp
qed

text \<open>
  Claim C7. \<open>validateForm\<close> succeeds exactly when there is at least one case and every
  case has a party name that is not blank after trimming; \<open>handleSubmit\<close> submits exactly
  when it succeeds. Every submitted case is the entered case at the same position with
  its party name trimmed, and its citation and notes are absent when the entered value is
  absent or blank, the trimmed text otherwise, and never the empty string.
\<close>

theorem manual_submission_requires_party_name:
  "(snd (validateForm cs) \<longleftrightarrow> cs \<noteq> [] \<and> (\<forall>c \<in> set cs. trim (party_name c) \<noteq> []))
   \<and> ((\<exists>r. snd (handleSubmit st) = Some r) \<longleftrightarrow> snd (validateForm (cases st)))
   \<and> (snd (handleSubmit st) = Some req \<longrightarrow>
        length (batch_cases req) = length (cases st)
        \<and> (\<forall>i. i < length (cases st) \<longrightarrow>
              party_name (batch_cases req ! i) = trim (party_name (cases st ! i))
              \<and> party_name (batch_cases req ! i) \<noteq> []
              \<and> citation (batch_cases req ! i)
                  = (case citation (cases st ! i) of
                       None \<Rightarrow> None
                     | Some s \<Rightarrow> if trim s = [] then None else Some (trim s))
              \<and> citation (batch_cases req ! i) \<noteq> Some []
              \<and> entry_notes (batch_cases req ! i)
                  = (case entry_notes (cases st ! i) of
                       None \<Rightarrow> None
                     | Some s \<Rightarrow> if trim s = [] then None else Some (trim s))
              \<and> entry_notes (batch_cases req ! i) \<noteq> Some []))"
  (is "?validates \<and> ?submits \<and> (?sent \<longrightarrow> ?same_length \<and> (\<forall>i. ?inside i \<longrightarrow> ?cleaned i))")
proof (intro conjI)
  show ?validates by (rule validateForm_ok)
next
  show ?submits
  proof
    assume "\<exists>r. snd (handleSubmit st) = Some r"
    then show "snd (validateForm (cases st))" using handleSubmit_sends by blast
  next
    assume "snd (validateForm (cases st))"
    then show "\<exists>r. snd (handleSubmit st) = Some r"
      by (cases "validateForm (cases st)") (simp add: handleSubmit_def)
  qed
next
  show "?sent \<longrightarrow> ?same_length \<and> (\<forall>i. ?inside i \<longrightarrow> ?cleaned i)"
  proof (rule impI)
    assume sent: ?sent
    from handleSubmit_sends [OF sent] have ?same_length by simp
    moreover have "\<forall>i. ?inside i \<longrightarrow> ?cleaned i"
    proof (intro allI impI)
      fix i
      assume i: "?inside i"
      from handleSubmit_entry [OF sent i]
      have at: "batch_cases req ! i = clean_case (cases st ! i)"
        and named: "trim (party_name (cases st ! i)) \<noteq> []" by simp_all
      from at named show "?cleaned i"
        by (simp add: clean_case_def clean_optional_def split: option.split)
    qed
    ultimately show "?same_length \<and> (\<forall>i. ?inside i \<longrightarrow> ?cleaned i)" by (rule conjI)
  qed
qed

theorem manual_submission_requires_party_name_witness:
  "snd (validateForm example_entries)
   \<and> snd (handleSubmit \<lparr> cases = example_entries, autoDownload = True,
                          validationErrors = [] \<rparr>) = Some example_request
   \<and> party_name (batch_cases example_request ! 0) = ''Smith v Jones''
   \<and> citation (batch_cases example_request ! 0) = Some ''[2020] HKCFI 123''
   \<and> entry_notes (batch_cases example_request ! 0) = None
   \<and> citation (batch_cases example_request ! 1) = None
   \<and> entry_notes (batch_cases example_request ! 1) = None"
proof -
  let ?st = "\<lparr> cases = example_entries, autoDownload = True, validationErrors = [] \<rparr>"
  have named: "\<forall>c \<in> set example_entries. trim (party_name c) \<noteq> []"
    by (simp add: example_entries_def trim_def is_whitespace_def)
  have some: "example_entries \<noteq> []"
    by (simp add: example_entries_def)
  have valid: "snd (validateForm example_entries)"
    using manual_submission_requires_party_name [of example_entries ?st example_request]
      named some by blast
  then obtain errs where ok: "validateForm example_entries = (errs, True)"
    by (cases "validateForm example_entries") simp
  have cleaned: "map clean_case example_entries = batch_cases example_request"
    by (simp add: example_entries_def example_request_def clean_case_def clean_optional_def
          trim_def is_whitespace_def)
  have kept: "filter (\<lambda>c. trim (party_name c) \<noteq> []) example_entries = example_entries"
    using named by (simp add: filter_id_conv)
  have sent: "snd (handleSubmit ?st) = Some example_request"
    using cleaned kept by (simp add: handleSubmit_def ok example_request_def)
  from valid sent show ?thesis by (simp add: example_request_def)
qed


section \<open>Properties of the case entry form\<close>

lemma removeCase_cases:
  "map snd (filter (\<lambda>(i, c). i \<noteq> n + index) (enumerate n cs)) = take index cs @ drop (Suc index) cs"
proof (induction cs arbitrary: n index)
  case Nil
  then show ?case by simp
next
  case (Cons c cs)
  show ?case
  proof (cases index)
    case 0
    have "filter (\<lambda>(i, c). i \<noteq> n) (enumerate (Suc n) cs) = enumerate (Suc n) cs"
      by (auto simp: filter_id_conv in_set_enumerate_eq)
    with 0 show ?thesis by simp
  next
    case (Suc k)
    with Cons.IH [of "Suc n" k] show ?thesis by simp
  qed
qed

lemma form_cases_removeCase:
  "form_cases (removeCase index st) = take index (form_cases st) @ drop (Suc index) (form_cases st)"
  using removeCase_cases [of 0 index "form_cases st"] by (simp add: removeCase_def)

lemma length_updateCase: "length (form_cases (updateCase i field v st)) = length (form_cases st)"
  by (simp add: updateCase_def)

lemma form_step_bounded:
  "length (form_cases st) \<le> maxCases \<Longrightarrow> length (form_cases (form_step maxCases st ev)) \<le> maxCases"
  by (cases ev)
     (auto simp: addCase_def after_onChange_def form_cases_removeCase length_updateCase)

lemma form_run_bounded:
  "length (form_cases st) \<le> maxCases \<Longrightarrow>
     length (form_cases (foldl (form_step maxCases) st evs)) \<le> maxCases"
  by (induction evs arbitrary: st) (simp_all add: form_step_bounded)

text \<open>
  Claim C9. With at least \<open>maxCases\<close> entries \<open>addCase\<close> hands nothing to \<open>onChange\<close> and
  the list stays as it is; with fewer it appends one blank entry after the existing
  ones. The form of \<open>ManualEntry\<close>, which starts with one entry and has
  \<open>maxCases = 100\<close>, never holds more than 100 entries, whatever is added, removed or
  edited.
\<close>

theorem addCase_respects_maxCases:
  "(maxCases \<le> length cs \<longrightarrow>
      addCase maxCases cs = None \<and> after_onChange cs (addCase maxCases cs) = cs)
   \<and> (length cs < maxCases \<longrightarrow>
      addCase maxCases cs = Some (cs @ [blank_entry])
      \<and> after_onChange cs (addCase maxCases cs) = cs @ [blank_entry])
   \<and> length (form_cases (foldl (form_step 100) manual_entry_form evs)) \<le> 100"
proof (intro conjI impI)
  show "length (form_cases (foldl (form_step 100) manual_entry_form evs)) \<le> 100"
    by (rule form_run_bounded) (simp add: manual_entry_form_def)
qed (simp_all add: addCase_def after_onChange_def)

theorem addCase_respects_maxCases_witness:
  "addCase 1 [blank_entry] = None
   \<and> after_onChange [blank_entry] (addCase 1 [blank_entry]) = [blank_entry]
   \<and> addCase 2 [blank_entry] = Some [blank_entry, blank_entry]
   \<and> after_onChange [blank_entry] (addCase 2 [blank_entry]) = [blank_entry, blank_entry]"
proof -
  have full: "1 \<le> length [blank_entry]" and room: "length [blank_entry] < 2"
    by simp_all
  from addCase_respects_maxCases [of 1 "[blank_entry]" "[]"] full
  have "addCase 1 [blank_entry] = None"
    and "after_onChange [blank_entry] (addCase 1 [blank_entry]) = [blank_entry]"
    by blast+
  moreover
  from addCase_respects_maxCases [of 2 "[blank_entry]" "[]"] room
  have "addCase 2 [blank_entry] = Some ([blank_entry] @ [blank_entry])"
    and "after_onChange [blank_entry] (addCase 2 [blank_entry]) = [blank_entry] @ [blank_entry]"
    by blast+
  ultimately show ?thesis by simp
qed

lemma fold_reindex:
  "distinct (map fst es) \<Longrightarrow>
   map_of (fold (\<lambda>(keyNum, v) newErrors.
                 if keyNum < index then AList.update keyNum v newErrors
                 else if keyNum > index then AList.update (keyNum - 1) v newErrors
                 else newErrors) es acc) k
   = (case map_of es (shift_key index k) of Some v \<Rightarrow> Some v | None \<Rightarrow> map_of acc k)"
proof (induction es arbitrary: acc)
  case Nil
  then show ?case by simp
next
  case (Cons e es)
  obtain keyNum v where e: "e = (keyNum, v)" by (cases e)
  from Cons.prems e have fresh: "map_of es keyNum = None" and d: "distinct (map fst es)"
    by (auto simp: map_of_eq_None_iff)
  show ?case
    using Cons.IH [OF d] fresh e
    by (auto simp: shift_key_def AList.update_conv' split: option.splits if_splits)
qed

lemma fold_reindex_distinct:
  "distinct (map fst acc) \<Longrightarrow>
   distinct (map fst (fold (\<lambda>(keyNum, v) newErrors.
                 if keyNum < index then AList.update keyNum v newErrors
                 else if keyNum > index then AList.update (keyNum - 1) v newErrors
                 else newErrors) es acc))"
  by (induction es arbitrary: acc) (auto simp: AList.distinct_update)

text \<open>
  Claim C10. \<open>removeCase i\<close> drops the case at position \<open>i\<close> and keeps the others in
  order. The new error object holds at each key below \<open>i\<close> what the old one held there
  and at each other key what the old one held one key higher: an error at \<open>k < i\<close> stays
  at \<open>k\<close>, an error at \<open>k > i\<close> moves to \<open>k - 1\<close>, every new error comes from an old key
  other than \<open>i\<close>, so the error at \<open>i\<close> is discarded, and no key occurs twice.
\<close>

theorem removeCase_reindexes_errors:
  "distinct (map fst (form_errors st)) \<Longrightarrow>
     form_cases (removeCase i st) = take i (form_cases st) @ drop (Suc i) (form_cases st)
     \<and> (\<forall>k. map_of (form_errors (removeCase i st)) k
              = (if k < i then map_of (form_errors st) k else map_of (form_errors st) (Suc k)))
     \<and> (\<forall>k v. map_of (form_errors st) k = Some v \<longrightarrow>
            (k < i \<longrightarrow> map_of (form_errors (removeCase i st)) k = Some v)
            \<and> (i < k \<longrightarrow> map_of (form_errors (removeCase i st)) (k - 1) = Some v))
     \<and> (\<forall>k' v. map_of (form_errors (removeCase i st)) k' = Some v \<longrightarrow>
            (\<exists>k. k \<noteq> i \<and> map_of (form_errors st) k = Some v
                 \<and> k' = (if k < i then k else k - 1)))
     \<and> distinct (map fst (form_errors (removeCase i st)))"
proof -
  assume d: "distinct (map fst (form_errors st))"
  have new: "map_of (form_errors (removeCase i st)) k
              = (if k < i then map_of (form_errors st) k else map_of (form_errors st) (Suc k))" for k
    using fold_reindex [OF d, of i "[]" k]
    by (simp add: removeCase_def shift_key_def split: option.splits)
  have moved: "(k < i \<longrightarrow> map_of (form_errors (removeCase i st)) k = Some v)
            \<and> (i < k \<longrightarrow> map_of (form_errors (removeCase i st)) (k - 1) = Some v)"
    if "map_of (form_errors st) k = Some v" for k v
    using that new [of k] new [of "k - 1"] by auto
  have origin: "\<exists>k. k \<noteq> i \<and> map_of (form_errors st) k = Some v
                 \<and> k' = (if k < i then k else k - 1)"
    if "map_of (form_errors (removeCase i st)) k' = Some v" for k' v
  proof (cases "k' < i")
    case True
    with that new [of k'] show ?thesis by (intro exI [of _ k']) auto
  next
    case False
    with that new [of k'] show ?thesis by (intro exI [of _ "Suc k'"]) auto
  qed
  have "distinct (map fst (form_errors (removeCase i st)))"
    by (simp add: removeCase_def fold_reindex_distinct)
  with new moved origin form_cases_removeCase [of i st] show ?thesis by blast
qed

theorem removeCase_reindexes_errors_witness:
  "distinct (map fst (form_errors example_form))
   \<and> map party_name (form_cases (removeCase 1 example_form)) = [''A v B'', ''C v D'']
   \<and> map_of (form_errors (removeCase 1 example_form)) 0 = Some ''first''
   \<and> map_of (form_errors (removeCase 1 example_form)) 1 = Some ''third''
   \<and> map_of (form_errors (removeCase 1 example_form)) 2 = None"
proof -
  have d: "distinct (map fst (form_errors example_form))"
    by (simp add: example_form_def)
  from removeCase_reindexes_errors [OF d, of 1]
  have cs: "form_cases (removeCase 1 example_form)
              = take 1 (form_cases example_form) @ drop (Suc 1) (form_cases example_form)"
    and es: "\<And>k. map_of (form_errors (removeCase 1 example_form)) k
              = (if k < 1 then map_of (form_errors example_form) k
                 else map_of (form_errors example_form) (Suc k))"
    by blast+
  from cs have "map party_name (form_cases (removeCase 1 example_form)) = [''A v B'', ''C v D'']"
    by (simp add: example_form_def)
  moreover from es [of 0] have "map_of (form_errors (removeCase 1 example_form)) 0 = Some ''first''"
    by (simp add: example_form_def)
  moreover from es [of 1] have "map_of (form_errors (removeCase 1 example_form)) 1 = Some ''third''"
    by (simp add: example_form_def)
  moreover from es [of 2] have "map_of (form_errors (removeCase 1 example_form)) 2 = None"
    by (simp add: example_form_def)
  ultimately show ?thesis using d by simp
qed


section \<open>Properties of the event stream's consumer\<close>

text \<open>
  Claim C8. A frame that does not parse leaves the hook's state as it was and the
  caller's \<open>onMessage\<close> uncalled; a frame that parses makes \<open>lastMessage\<close> the parsed
  message and changes nothing else of the state. The dashboard's batch, statistics and
  cases queries each have a refetch interval of 5000 milliseconds, and are enabled
  whenever a batch is selected.
\<close>

theorem websocket_consumer:
  "(JSON_parse data = None \<longrightarrow>
      fst (ws_onmessage JSON_parse onMessage data st) = st
      \<and> (\<forall>m. OnMessageCalled m \<notin> set (snd (ws_onmessage JSON_parse onMessage data st))))
   \<and> (JSON_parse data = Some msg \<longrightarrow>
      lastMessage (fst (ws_onmessage JSON_parse onMessage data st)) = Some msg
      \<and> isConnected (fst (ws_onmessage JSON_parse onMessage data st)) = isConnected st)
   \<and> map refetchInterval (dashboard_queries b) = [Some 5000, Some 5000, Some 5000]
   \<and> map (fst \<circ> queryKey) (dashboard_queries b) = [''batch'', ''batch-stats'', ''batch-cases'']
   \<and> map enabled (dashboard_queries b) = replicate 3 (truthy_string b)"
  by (simp add: ws_onmessage_def dashboard_queries_def batchQuery_def statsQuery_def
        casesQuery_def numeral_3_eq_3)

theorem websocket_consumer_witness:
  "example_parse ''{bad'' = None
   \<and> fst (ws_onmessage example_parse (Some (\<lambda>m. True)) ''{bad''
            \<lparr> isConnected = True, lastMessage = Some 7 \<rparr>)
       = \<lparr> isConnected = True, lastMessage = Some 7 \<rparr>
   \<and> example_parse ''42'' = Some 42
   \<and> lastMessage (fst (ws_onmessage example_parse (Some (\<lambda>m. True)) ''42''
            \<lparr> isConnected = True, lastMessage = Some 7 \<rparr>))
       = Some 42"
proof -
  let ?st = "\<lparr> isConnected = True, lastMessage = Some (7::nat) \<rparr>"
  let ?cb = "Some (\<lambda>m::nat. True)"
  have bad: "example_parse ''{bad'' = None"
    and good: "example_parse ''42'' = Some 42"
    by (simp_all add: example_parse_def)
  from websocket_consumer
         [where JSON_parse = example_parse and data = "''{bad''" and onMessage = ?cb
            and st = ?st] bad
  have "fst (ws_onmessage example_parse ?cb ''{bad'' ?st) = ?st"
    by blast
  moreover
  from websocket_consumer
         [where JSON_parse = example_parse and data = "''42''" and onMessage = ?cb
            and st = ?st and msg = 42] good
  have "lastMessage (fst (ws_onmessage example_parse ?cb ''42'' ?st)) = Some 42"
    by blast
  ultimately show ?thesis using bad good by simp
qed

end
